theory Spec2Isabelle
  imports Complex_Main
begin

section \<open>The array engine\<close>

text \<open>
  The three operations of \<^verbatim>\<open>BasisLib/ops/safe.py\<close> are written against NumPy.  The part of
  NumPy they call is modelled here: an array is its shape and its elements in row-major
  order, every exception of the engine is a value \<open>Inl e\<close>, and an axis argument is
  \<^verbatim>\<open>None\<close>, an integer or a tuple of integers.  A value of rank 0 is an array of the empty
  shape with one element; NumPy's array scalars are not set apart from such arrays.
\<close>

datatype np_error = AxisError | ValueError

datatype dtype = Float16 | Float32 | Float64

subsection \<open>Element values\<close>

text \<open>
  An element is a finite number, an infinity or NaN, and the special values behave as in
  IEEE 754: NaN propagates through every operation and makes every comparison false,
  \<open>\<infinity> - \<infinity>\<close>, \<open>0 \<sqdot> \<infinity>\<close>, \<open>\<infinity> / \<infinity>\<close>, \<open>0 / 0\<close> and the square root of a negative number are
  NaN, and a nonzero number divided by zero is an infinity.  Zero has no sign here.

  On finite numbers the arithmetic is exact: a result is never rounded, never overflows to
  an infinity and never underflows to zero.  Where the range of a format matters, it is
  stated about the magnitudes of the exact values, with the constants \<open>finfo_max\<close> and
  \<open>finfo_smallest_subnormal\<close> below.
\<close>

datatype fval = Fin real | PInf | NInf | NaN

fun fneg :: "fval \<Rightarrow> fval" where
  "fneg (Fin r) = Fin (- r)"
| "fneg PInf = NInf"
| "fneg NInf = PInf"
| "fneg NaN = NaN"

fun fabs :: "fval \<Rightarrow> fval" where
  "fabs (Fin r) = Fin \<bar>r\<bar>"
| "fabs PInf = PInf"
| "fabs NInf = PInf"
| "fabs NaN = NaN"

text \<open>\<^verbatim>\<open>np.maximum\<close>, also the step of the reduction \<^verbatim>\<open>np.max\<close>: a NaN operand gives NaN.\<close>

fun fmax :: "fval \<Rightarrow> fval \<Rightarrow> fval" where
  "fmax NaN v = NaN"
| "fmax v NaN = NaN"
| "fmax PInf v = PInf"
| "fmax v PInf = PInf"
| "fmax NInf v = v"
| "fmax v NInf = v"
| "fmax (Fin a) (Fin b) = Fin (max a b)"

fun fadd :: "fval \<Rightarrow> fval \<Rightarrow> fval" where
  "fadd NaN v = NaN"
| "fadd v NaN = NaN"
| "fadd PInf NInf = NaN"
| "fadd NInf PInf = NaN"
| "fadd PInf v = PInf"
| "fadd v PInf = PInf"
| "fadd NInf v = NInf"
| "fadd v NInf = NInf"
| "fadd (Fin a) (Fin b) = Fin (a + b)"

fun fmul :: "fval \<Rightarrow> fval \<Rightarrow> fval" where
  "fmul NaN v = NaN"
| "fmul v NaN = NaN"
| "fmul (Fin a) (Fin b) = Fin (a * b)"
| "fmul (Fin a) v = (if a = 0 then NaN else if 0 < a then v else fneg v)"
| "fmul v (Fin b) = (if b = 0 then NaN else if 0 < b then v else fneg v)"
| "fmul PInf v = v"
| "fmul NInf v = fneg v"

fun fdiv :: "fval \<Rightarrow> fval \<Rightarrow> fval" where
  "fdiv NaN v = NaN"
| "fdiv v NaN = NaN"
| "fdiv (Fin a) (Fin b) =
     (if b = 0 then (if a = 0 then NaN else if 0 < a then PInf else NInf) else Fin (a / b))"
| "fdiv (Fin a) v = Fin 0"
| "fdiv v (Fin b) = (if 0 \<le> b then v else fneg v)"
| "fdiv v w = NaN"

fun fsqrt :: "fval \<Rightarrow> fval" where
  "fsqrt (Fin r) = (if r < 0 then NaN else Fin (sqrt r))"
| "fsqrt PInf = PInf"
| "fsqrt NInf = NaN"
| "fsqrt NaN = NaN"

text \<open>The comparison \<open>v > w\<close>.\<close>

fun fgreater :: "fval \<Rightarrow> fval \<Rightarrow> bool" where
  "fgreater NaN w = False"
| "fgreater v NaN = False"
| "fgreater (Fin a) (Fin b) = (b < a)"
| "fgreater PInf PInf = False"
| "fgreater PInf w = True"
| "fgreater v PInf = False"
| "fgreater NInf w = False"
| "fgreater v NInf = True"

text \<open>
  The sum of a list of elements.  The engine adds in another order; the result does not
  depend on the order, since \<open>fadd\<close> is associative and commutative.
\<close>

definition fsum :: "fval list \<Rightarrow> fval" where
  "fsum vs = foldr fadd vs (Fin 0)"

subsection \<open>Arrays\<close>

record ndarray =
  dtype :: dtype
  shape :: "nat list"
  data :: "fval list"

text \<open>A boolean array, as produced by a comparison.\<close>

record mask =
  mask_shape :: "nat list"
  mask_data :: "bool list"

datatype axis_spec = AxisNone | AxisInt int | AxisTuple "int list"

text \<open>
  \<^verbatim>\<open>np.finfo(dtype)\<close>: \<^verbatim>\<open>tiny\<close> is the smallest positive normal number of the format,
  \<^verbatim>\<open>max\<close> its largest finite number and \<^verbatim>\<open>smallest_subnormal\<close> its smallest positive
  number.
\<close>

fun finfo_tiny :: "dtype \<Rightarrow> real" where
  "finfo_tiny Float16 = 1 / 2 ^ 14"
| "finfo_tiny Float32 = 1 / 2 ^ 126"
| "finfo_tiny Float64 = 1 / 2 ^ 1022"

fun finfo_max :: "dtype \<Rightarrow> real" where
  "finfo_max Float16 = 65504"
| "finfo_max Float32 = 2 ^ 128 - 2 ^ 104"
| "finfo_max Float64 = 2 ^ 1024 - 2 ^ 971"

fun finfo_smallest_subnormal :: "dtype \<Rightarrow> real" where
  "finfo_smallest_subnormal Float16 = 1 / 2 ^ 24"
| "finfo_smallest_subnormal Float32 = 1 / 2 ^ 149"
| "finfo_smallest_subnormal Float64 = 1 / 2 ^ 1074"

subsection \<open>Indices\<close>

text \<open>All index vectors of a shape, in row-major order, and the offset of one of them.\<close>

fun indices :: "nat list \<Rightarrow> nat list list" where
  "indices [] = [[]]"
| "indices (n # sh) = concat (map (\<lambda>i. map ((#) i) (indices sh)) [0..<n])"

fun flat_index :: "nat list \<Rightarrow> nat list \<Rightarrow> nat" where
  "flat_index (n # sh) (i # idx) = i * prod_list sh + flat_index sh idx"
| "flat_index _ _ = 0"

text \<open>
  Broadcasting: shapes are aligned at their last axis; two extents are compatible when
  they are equal or one of them is 1.  An operand is read at extent 1 with index 0.
\<close>

fun broadcast_rev :: "nat list \<Rightarrow> nat list \<Rightarrow> np_error + nat list" where
  "broadcast_rev [] ys = Inr ys"
| "broadcast_rev (x # xs) [] = Inr (x # xs)"
| "broadcast_rev (x # xs) (y # ys) =
     (if x = y \<or> y = 1 then map_sum id ((#) x) (broadcast_rev xs ys)
      else if x = 1 then map_sum id ((#) y) (broadcast_rev xs ys)
      else Inl ValueError)"

definition broadcast_shapes :: "nat list \<Rightarrow> nat list \<Rightarrow> np_error + nat list" where
  "broadcast_shapes a b = map_sum id rev (broadcast_rev (rev a) (rev b))"

definition broadcast_index :: "nat list \<Rightarrow> nat list \<Rightarrow> nat list" where
  "broadcast_index sh idx =
     map2 (\<lambda>n i. if n = 1 then 0 else i) sh (drop (length idx - length sh) idx)"

definition item :: "nat list \<Rightarrow> 'a list \<Rightarrow> nat list \<Rightarrow> 'a" where
  "item sh d idx = d ! flat_index sh (broadcast_index sh idx)"

subsection \<open>Axis arguments\<close>

text \<open>
  \<^verbatim>\<open>check_and_adjust_axis\<close>: an axis of an array of rank \<open>ndim\<close> lies in
  \<open>[-ndim, ndim)\<close>; a negative one counts from the last axis.
\<close>

definition check_and_adjust_axis :: "int \<Rightarrow> nat \<Rightarrow> np_error + nat" where
  "check_and_adjust_axis k ndim =
     (if k < - int ndim \<or> int ndim \<le> k then Inl AxisError
      else if k < 0 then Inr (nat (k + int ndim)) else Inr (nat k))"

text \<open>
  The axes of a reduction (\<^verbatim>\<open>ufunc.reduce\<close>), as one flag per axis.  \<^verbatim>\<open>None\<close> is every
  axis.  Every entry of a tuple is range-checked first, then a repeated entry is a
  \<^verbatim>\<open>ValueError\<close>.  For an array of rank 0 an integer axis 0 or -1 is let through and
  reduces nothing.
\<close>

fun adjust_axes :: "int list \<Rightarrow> nat \<Rightarrow> np_error + nat list" where
  "adjust_axes [] ndim = Inr []"
| "adjust_axes (k # ks) ndim =
     (case check_and_adjust_axis k ndim of
        Inl e \<Rightarrow> Inl e
      | Inr a \<Rightarrow> map_sum id ((#) a) (adjust_axes ks ndim))"

fun axis_flags :: "nat list \<Rightarrow> bool list \<Rightarrow> np_error + bool list" where
  "axis_flags [] fl = Inr fl"
| "axis_flags (a # as) fl =
     (if fl ! a then Inl ValueError else axis_flags as (fl[a := True]))"

fun reduction_axes :: "axis_spec \<Rightarrow> nat \<Rightarrow> np_error + bool list" where
  "reduction_axes AxisNone ndim = Inr (replicate ndim True)"
| "reduction_axes (AxisInt k) ndim =
     (if ndim = 0 \<and> (k = 0 \<or> k = -1) then Inr []
      else case check_and_adjust_axis k ndim of
             Inl e \<Rightarrow> Inl e
           | Inr a \<Rightarrow> axis_flags [a] (replicate ndim False))"
| "reduction_axes (AxisTuple ks) ndim =
     (case adjust_axes ks ndim of
        Inl e \<Rightarrow> Inl e
      | Inr as \<Rightarrow> axis_flags as (replicate ndim False))"

text \<open>
  The axes of \<^verbatim>\<open>squeeze\<close> (\<^verbatim>\<open>PyArray_ConvertMultiAxis\<close>): here each entry of a tuple is
  range-checked and then tested for repetition before the next one is read.
\<close>

fun convert_axis_tuple :: "int list \<Rightarrow> nat \<Rightarrow> bool list \<Rightarrow> np_error + bool list" where
  "convert_axis_tuple [] ndim fl = Inr fl"
| "convert_axis_tuple (k # ks) ndim fl =
     (case check_and_adjust_axis k ndim of
        Inl e \<Rightarrow> Inl e
      | Inr a \<Rightarrow> if fl ! a then Inl ValueError
                else convert_axis_tuple ks ndim (fl[a := True]))"

fun convert_multi_axis :: "axis_spec \<Rightarrow> nat \<Rightarrow> np_error + bool list" where
  "convert_multi_axis AxisNone ndim = Inr (replicate ndim True)"
| "convert_multi_axis (AxisInt k) ndim =
     (if ndim = 0 \<and> (k = 0 \<or> k = -1) then Inr []
      else case check_and_adjust_axis k ndim of
             Inl e \<Rightarrow> Inl e
           | Inr a \<Rightarrow> Inr ((replicate ndim False)[a := True]))"
| "convert_multi_axis (AxisTuple ks) ndim = convert_axis_tuple ks ndim (replicate ndim False)"

subsection \<open>Reductions and shape operations\<close>

text \<open>The shape of a reduction that keeps the reduced axes, and the one that drops them.\<close>

definition keep_shape :: "nat list \<Rightarrow> bool list \<Rightarrow> nat list" where
  "keep_shape sh fl = map2 (\<lambda>n f. if f then 1 else n) sh fl"

definition remove_axes :: "nat list \<Rightarrow> bool list \<Rightarrow> nat list" where
  "remove_axes sh fl = map fst (filter (\<lambda>(n, f). \<not> f) (zip sh fl))"

text \<open>
  The indices of the input that one index of the result (reduced axes kept) sums over:
  a reduced axis runs through its whole extent, any other axis is fixed.
\<close>

fun fibre :: "nat list \<Rightarrow> bool list \<Rightarrow> nat list \<Rightarrow> nat list list" where
  "fibre (n # sh) (f # fl) (i # idx) =
     concat (map (\<lambda>j. map ((#) j) (fibre sh fl idx)) (if f then [0..<n] else [i]))"
| "fibre _ _ _ = [[]]"

text \<open>
  \<^verbatim>\<open>np.sum(x, axis=axis, keepdims=keepdims)\<close>: the reduction is computed with the reduced
  axes kept at extent 1; without \<^verbatim>\<open>keepdims\<close> these axes are then removed from the shape.
\<close>

definition np_sum :: "ndarray \<Rightarrow> axis_spec \<Rightarrow> bool \<Rightarrow> np_error + ndarray" where
  "np_sum x axis keepdims =
     (case reduction_axes axis (length (shape x)) of
        Inl e \<Rightarrow> Inl e
      | Inr fl \<Rightarrow>
          Inr (x\<lparr>shape := (if keepdims then keep_shape (shape x) fl
                           else remove_axes (shape x) fl),
                 data := map (\<lambda>out. fsum (map (item (shape x) (data x))
                                                  (fibre (shape x) fl out)))
                             (indices (keep_shape (shape x) fl))\<rparr>))"

text \<open>
  \<^verbatim>\<open>np.max(x)\<close> over all elements: a zero-size array has no maximum and the engine
  raises \<^verbatim>\<open>ValueError\<close>.
\<close>

definition np_max :: "ndarray \<Rightarrow> np_error + fval" where
  "np_max x = (case data x of [] \<Rightarrow> Inl ValueError | v # vs \<Rightarrow> Inr (fold fmax vs v))"

text \<open>
  \<^verbatim>\<open>np.squeeze(x, axis=axis)\<close>: \<^verbatim>\<open>None\<close> removes every axis of extent 1; otherwise the
  selected axes are removed, and each of them must have extent 1.
\<close>

definition np_squeeze :: "ndarray \<Rightarrow> axis_spec \<Rightarrow> np_error + ndarray" where
  "np_squeeze x axis =
     (case axis of
        AxisNone \<Rightarrow> Inr (x\<lparr>shape := filter (\<lambda>n. n \<noteq> 1) (shape x)\<rparr>)
      | _ \<Rightarrow>
          (case convert_multi_axis axis (length (shape x)) of
             Inl e \<Rightarrow> Inl e
           | Inr fl \<Rightarrow>
               if list_ex (\<lambda>(n, f). f \<and> n \<noteq> 1) (zip (shape x) fl) then Inl ValueError
               else Inr (x\<lparr>shape := remove_axes (shape x) fl\<rparr>)))"

subsection \<open>Elementwise operations\<close>

definition np_abs :: "ndarray \<Rightarrow> ndarray" where
  "np_abs x = x\<lparr>data := map fabs (data x)\<rparr>"

definition np_sqrt :: "ndarray \<Rightarrow> ndarray" where
  "np_sqrt x = x\<lparr>data := map fsqrt (data x)\<rparr>"

text \<open>An array divided by a scalar, a scalar times an array, an array compared with a scalar.\<close>

definition divide_scalar :: "ndarray \<Rightarrow> fval \<Rightarrow> ndarray" where
  "divide_scalar x a = x\<lparr>data := map (\<lambda>v. fdiv v a) (data x)\<rparr>"

definition scalar_multiply :: "fval \<Rightarrow> ndarray \<Rightarrow> ndarray" where
  "scalar_multiply a x = x\<lparr>data := map (\<lambda>v. fmul a v) (data x)\<rparr>"

definition greater_scalar :: "ndarray \<Rightarrow> fval \<Rightarrow> mask" where
  "greater_scalar x t = \<lparr>mask_shape = shape x, mask_data = map (\<lambda>v. fgreater v t) (data x)\<rparr>"

text \<open>A binary operation on two arrays, and \<^verbatim>\<open>np.where(c, x, s)\<close> with a scalar \<open>s\<close>.\<close>

definition binary_ufunc ::
    "(fval \<Rightarrow> fval \<Rightarrow> fval) \<Rightarrow> ndarray \<Rightarrow> ndarray \<Rightarrow> np_error + ndarray" where
  "binary_ufunc f x y =
     (case broadcast_shapes (shape x) (shape y) of
        Inl e \<Rightarrow> Inl e
      | Inr sh \<Rightarrow>
          Inr (x\<lparr>shape := sh,
                 data := map (\<lambda>idx. f (item (shape x) (data x) idx)
                                       (item (shape y) (data y) idx))
                             (indices sh)\<rparr>))"

definition np_multiply :: "ndarray \<Rightarrow> ndarray \<Rightarrow> np_error + ndarray" where
  "np_multiply = binary_ufunc fmul"

definition np_divide :: "ndarray \<Rightarrow> ndarray \<Rightarrow> np_error + ndarray" where
  "np_divide = binary_ufunc fdiv"

definition np_where :: "mask \<Rightarrow> ndarray \<Rightarrow> fval \<Rightarrow> np_error + ndarray" where
  "np_where c x s =
     (case broadcast_shapes (mask_shape c) (shape x) of
        Inl e \<Rightarrow> Inl e
      | Inr sh \<Rightarrow>
          Inr (x\<lparr>shape := sh,
                 data := map (\<lambda>idx. if item (mask_shape c) (mask_data c) idx
                                     then item (shape x) (data x) idx else s)
                             (indices sh)\<rparr>))"

section \<open>The operations of \<^verbatim>\<open>safe.py\<close>\<close>

text \<open>
  The three functions of the source, line by line.  The source's \<^verbatim>\<open>norm\<close> is \<open>norm_l2\<close> here,
  since HOL has a constant of that name.
\<close>

definition norm_l2 :: "ndarray \<Rightarrow> axis_spec \<Rightarrow> bool \<Rightarrow> np_error + ndarray" where
  "norm_l2 x axis keepdims =
     (case np_max (np_abs x) of
        Inl e \<Rightarrow> Inl e
      | Inr m \<Rightarrow>
          let a = fmax m (Fin (finfo_tiny (dtype x)));
              b = divide_scalar x a
          in (case np_multiply b b of
                Inl e \<Rightarrow> Inl e
              | Inr bb \<Rightarrow>
                  (case np_sum bb axis keepdims of
                     Inl e \<Rightarrow> Inl e
                   | Inr s \<Rightarrow> Inr (scalar_multiply a (np_sqrt s)))))"

definition normalize_and_return_norm ::
    "ndarray \<Rightarrow> axis_spec \<Rightarrow> bool \<Rightarrow> np_error + ndarray \<times> ndarray" where
  "normalize_and_return_norm x axis keepdims =
     (case norm_l2 x axis True of
        Inl e \<Rightarrow> Inl e
      | Inr n \<Rightarrow>
          (case np_multiply n n of
             Inl e \<Rightarrow> Inl e
           | Inr nn \<Rightarrow>
               (case np_where (greater_scalar nn (Fin (finfo_tiny (dtype x)))) n (Fin 1) of
                  Inl e \<Rightarrow> Inl e
                | Inr w \<Rightarrow>
                    (case np_divide x w of
                       Inl e \<Rightarrow> Inl e
                     | Inr y \<Rightarrow>
                         if \<not> keepdims
                         then (case np_squeeze n axis of
                                 Inl e \<Rightarrow> Inl e
                               | Inr n' \<Rightarrow> Inr (y, n'))
                         else Inr (y, n)))))"

definition normalize :: "ndarray \<Rightarrow> axis_spec \<Rightarrow> np_error + ndarray" where
  "normalize x axis =
     (case normalize_and_return_norm x axis True of
        Inl e \<Rightarrow> Inl e
      | Inr (y, n) \<Rightarrow> Inr y)"

section \<open>Notions used in the statements\<close>

text \<open>An array holds one element for every index of its shape.\<close>

definition well_formed :: "ndarray \<Rightarrow> bool" where
  "well_formed x \<longleftrightarrow> length (data x) = prod_list (shape x)"

text \<open>
  Finite elements and the numbers they hold; arrays of finite elements; the elements that
  are not below zero; and the finite elements whose magnitude a format can hold.
\<close>

fun is_finite :: "fval \<Rightarrow> bool" where
  "is_finite (Fin r) = True"
| "is_finite v = False"

fun real_of :: "fval \<Rightarrow> real" where
  "real_of (Fin r) = r"
| "real_of v = 0"

definition finite_array :: "ndarray \<Rightarrow> bool" where
  "finite_array x = list_all is_finite (data x)"

fun nonnegative :: "fval \<Rightarrow> bool" where
  "nonnegative (Fin r) = (0 \<le> r)"
| "nonnegative PInf = True"
| "nonnegative NInf = False"
| "nonnegative NaN = False"


text \<open>
  The value bound to \<open>a\<close> in \<open>norm_l2\<close> when \<open>x\<close> is finite and has an element: the largest
  magnitude in \<open>x\<close>, floored to \<^verbatim>\<open>tiny\<close>.
\<close>

definition scale_of :: "ndarray \<Rightarrow> real" where
  "scale_of x = max (Max (abs ` real_of ` set (data x))) (finfo_tiny (dtype x))"

text \<open>
  One slice of \<open>x\<close> is the set of elements that the index \<open>out\<close> of a reduction over the
  axes \<open>fl\<close> sums over.  The sum of the squares of a slice of a finite array, whose square
  root is the L2-norm of the slice, and the number of elements of a slice.
\<close>

definition slice_sumsq :: "ndarray \<Rightarrow> bool list \<Rightarrow> nat list \<Rightarrow> real" where
  "slice_sumsq x fl out =
     sum_list (map (\<lambda>j. real_of (item (shape x) (data x) j) * real_of (item (shape x) (data x) j))
                   (fibre (shape x) fl out))"


text \<open>
  One element of \<^verbatim>\<open>np.where(n * n > tiny, n, 1)\<close>: the divisor that \<open>normalize_and_return_norm\<close>
  uses where the norm is \<open>v\<close>.
\<close>

definition safe_divisor :: "fval \<Rightarrow> fval \<Rightarrow> fval" where
  "safe_divisor t v = (if fgreater (fmul v v) t then v else Fin 1)"

text \<open>
  The naive L2-norm that the specification compares \<open>norm_l2\<close> with:
  \<^verbatim>\<open>sqrt(sum(x * x, axis))\<close>.
\<close>

definition naive_norm :: "ndarray \<Rightarrow> axis_spec \<Rightarrow> bool \<Rightarrow> np_error + ndarray" where
  "naive_norm x axis keepdims =
     (case np_multiply x x of
        Inl e \<Rightarrow> Inl e
      | Inr xx \<Rightarrow>
          (case np_sum xx axis keepdims of
             Inl e \<Rightarrow> Inl e
           | Inr s \<Rightarrow> Inr (np_sqrt s)))"

text \<open>
  Every value that \<open>norm_l2\<close> computes on its way, stage by stage: the magnitudes
  \<^verbatim>\<open>np.abs(x)\<close>, their maximum, the scale \<open>a\<close>, the rescaled elements \<open>b\<close>, the squares
  \<open>b * b\<close>, their sums over the axes, the square roots of the sums, and the products with
  \<open>a\<close>, which are the elements of the result.
\<close>

record norm_stages =
  st_abs :: "fval list"
  st_max :: fval
  st_a :: fval
  st_b :: "fval list"
  st_bb :: "fval list"
  st_sum :: "fval list"
  st_sqrt :: "fval list"
  st_result :: "fval list"

definition norm_stages_of :: "ndarray \<Rightarrow> axis_spec \<Rightarrow> bool \<Rightarrow> np_error + norm_stages" where
  "norm_stages_of x axis keepdims =
     (case np_max (np_abs x) of
        Inl e \<Rightarrow> Inl e
      | Inr m \<Rightarrow>
          let a = fmax m (Fin (finfo_tiny (dtype x)));
              b = divide_scalar x a
          in (case np_multiply b b of
                Inl e \<Rightarrow> Inl e
              | Inr bb \<Rightarrow>
                  (case np_sum bb axis keepdims of
                     Inl e \<Rightarrow> Inl e
                   | Inr s \<Rightarrow>
                       Inr \<lparr>st_abs = data (np_abs x), st_max = m, st_a = a, st_b = data b,
                            st_bb = data bb, st_sum = data s, st_sqrt = data (np_sqrt s),
                            st_result = data (scalar_multiply a (np_sqrt s))\<rparr>)))"


text \<open>
  An axis argument that names a dimension outside the rank \<open>r\<close>: an integer outside
  \<open>[-r, r)\<close>, or a tuple with such an entry.  The integers 0 and -1 are set apart for
  rank 0, where the engine lets them through.
\<close>

fun axis_out_of_range :: "axis_spec \<Rightarrow> nat \<Rightarrow> bool" where
  "axis_out_of_range AxisNone r = False"
| "axis_out_of_range (AxisInt k) r =
     ((k < - int r \<or> int r \<le> k) \<and> \<not> (r = 0 \<and> (k = 0 \<or> k = -1)))"
| "axis_out_of_range (AxisTuple ks) r = list_ex (\<lambda>k. k < - int r \<or> int r \<le> k) ks"

subsection \<open>Concrete inputs\<close>

text \<open>
  The vector \<^verbatim>\<open>[3.0, 4.0]\<close> and the matrix \<^verbatim>\<open>[[3.0, 4.0], [0.0, 0.0]]\<close> of the
  specification's scenarios, a rank-0 array, and the zero-size arrays \<^verbatim>\<open>np.zeros((0,))\<close> and
  \<^verbatim>\<open>np.zeros((2, 0))\<close>.
\<close>

definition vec34 :: ndarray where
  "vec34 = \<lparr>dtype = Float64, shape = [2], data = [Fin 3, Fin 4]\<rparr>"

definition rows34 :: ndarray where
  "rows34 = \<lparr>dtype = Float32, shape = [2, 2], data = [Fin 3, Fin 4, Fin 0, Fin 0]\<rparr>"

definition scalar7 :: ndarray where
  "scalar7 = \<lparr>dtype = Float64, shape = [], data = [Fin 7]\<rparr>"

definition empty_vec :: ndarray where
  "empty_vec = \<lparr>dtype = Float64, shape = [0], data = []\<rparr>"

definition empty_rows :: ndarray where
  "empty_rows = \<lparr>dtype = Float64, shape = [2, 0], data = []\<rparr>"

text \<open>The vectors \<^verbatim>\<open>[nan, 1.0]\<close> and \<^verbatim>\<open>[inf, 1.0]\<close>.\<close>

definition nan_vec :: ndarray where
  "nan_vec = \<lparr>dtype = Float64, shape = [2], data = [NaN, Fin 1]\<rparr>"

definition inf_vec :: ndarray where
  "inf_vec = \<lparr>dtype = Float64, shape = [2], data = [PInf, Fin 1]\<rparr>"



definition steep_rows :: ndarray where
  "steep_rows = \<lparr>dtype = Float16, shape = [2, 2], data = [Fin 128, Fin 0, Fin (1 / 64), Fin 0]\<rparr>"

section \<open>Facts about the array engine\<close>

subsection \<open>Row-major indexing\<close>

lemma length_indices: "length (indices sh) = prod_list sh"
proof (induction sh)
  case Nil
  show ?case by simp
next
  case (Cons n sh)
  have "length (concat (map (\<lambda>i. map ((#) i) (indices sh)) [0..<n])) = n * prod_list sh"
    by (simp add: length_concat Cons.IH o_def sum_list_triv)
  then show ?case by simp
qed

lemma concat_blocks_upt:
  "concat (map (\<lambda>i. map (\<lambda>k. i * p + k) [0..<p]) [0..<n]) = [0..<n * p]"
proof (induction n)
  case 0
  show ?case by simp
next
  case (Suc n)
  have "map (\<lambda>k. n * p + k) [0..<p] = [n * p..<n * p + p]"
    using map_add_upt [of "n * p" p] by (simp add: add.commute)
  then have "concat (map (\<lambda>i. map (\<lambda>k. i * p + k) [0..<p]) [0..<Suc n])
      = [0..<n * p] @ [n * p..<n * p + p]"
    using Suc.IH by simp
  also have "\<dots> = [0..<n * p + p]"
    by (metis le_add1 upt_add_eq_append zero_le)
  finally show ?case by (simp add: add.commute)
qed

lemma map_flat_index_indices: "map (flat_index sh) (indices sh) = [0..<prod_list sh]"
proof (induction sh)
  case Nil
  show ?case by simp
next
  case (Cons n sh)
  have "map (flat_index (n # sh)) (indices (n # sh))
      = concat (map (\<lambda>i. map (\<lambda>k. i * prod_list sh + k) (map (flat_index sh) (indices sh))) [0..<n])"
    by (simp add: map_concat o_def)
  also have "\<dots> = [0..<n * prod_list sh]"
    unfolding Cons.IH by (rule concat_blocks_upt)
  finally show ?case by simp
qed

lemma in_indices_iff: "idx \<in> set (indices sh) \<longleftrightarrow> list_all2 (<) idx sh"
proof (induction sh arbitrary: idx)
  case Nil
  show ?case by auto
next
  case (Cons n sh)
  show ?case
    by (cases idx) (auto simp: Cons.IH image_iff)
qed

lemma flat_index_less:
  assumes "idx \<in> set (indices sh)"
  shows "flat_index sh idx < prod_list sh"
proof -
  have "flat_index sh idx \<in> set (map (flat_index sh) (indices sh))"
    using assms by simp
  then show ?thesis
    unfolding map_flat_index_indices by simp
qed

lemma nth_indices_flat:
  assumes "idx \<in> set (indices sh)"
  shows "indices sh ! flat_index sh idx = idx"
proof -
  from assms obtain k where k: "k < length (indices sh)" "indices sh ! k = idx"
    by (auto simp: in_set_conv_nth)
  have "flat_index sh idx = map (flat_index sh) (indices sh) ! k"
    using k by simp
  also have "\<dots> = k"
    unfolding map_flat_index_indices using k by (simp add: length_indices)
  finally show ?thesis using k by simp
qed

lemma nth_tabulate:
  assumes "idx \<in> set (indices sh)"
  shows "map f (indices sh) ! flat_index sh idx = f idx"
  using flat_index_less [OF assms] nth_indices_flat [OF assms]
  by (simp add: length_indices)

lemma map_nth_flat:
  assumes "length d = prod_list sh"
  shows "map (\<lambda>idx. d ! flat_index sh idx) (indices sh) = d"
proof -
  have "map (\<lambda>idx. d ! flat_index sh idx) (indices sh)
      = map ((!) d) (map (flat_index sh) (indices sh))"
    by simp
  also have "\<dots> = d"
    unfolding map_flat_index_indices using assms map_nth [of d] by simp
  finally show ?thesis .
qed

lemma broadcast_index_id:
  assumes "idx \<in> set (indices sh)"
  shows "broadcast_index sh idx = idx"
proof -
  have "list_all2 (<) idx sh" using assms by (simp add: in_indices_iff)
  then have "map2 (\<lambda>n i. if n = 1 then 0 else i) sh idx = idx"
    by (induction idx sh rule: list_all2_induct) auto
  moreover have "length idx = length sh"
    using \<open>list_all2 (<) idx sh\<close> by (rule list_all2_lengthD)
  ultimately show ?thesis by (simp add: broadcast_index_def)
qed

lemma item_valid:
  assumes "idx \<in> set (indices sh)"
  shows "item sh d idx = d ! flat_index sh idx"
  by (simp add: item_def broadcast_index_id [OF assms])

subsection \<open>Reduced shapes, slices and broadcasting\<close>

lemma length_keep_shape: "length fl = length sh \<Longrightarrow> length (keep_shape sh fl) = length sh"
  by (simp add: keep_shape_def)

lemma keep_shape_Cons: "keep_shape (n # sh) (f # fl) = (if f then 1 else n) # keep_shape sh fl"
  by (simp add: keep_shape_def)

lemma fibre_subset:
  assumes "length fl = length sh"
    and "out \<in> set (indices (keep_shape sh fl))"
    and "j \<in> set (fibre sh fl out)"
  shows "j \<in> set (indices sh)"
  using assms
proof (induction sh fl arbitrary: out j rule: list_induct2')
  case 1
  then show ?case by simp
next
  case (2 x xs)
  then show ?case by simp
next
  case (3 y ys)
  then show ?case by simp
next
  case (4 n sh f fl)
  from "4.prems"(2) obtain i out' where out: "out = i # out'"
    and i: "i < (if f then 1 else n)" and out': "out' \<in> set (indices (keep_shape sh fl))"
    by (auto simp: keep_shape_Cons)
  from "4.prems"(3) out obtain k j' where j: "j = k # j'"
    and k: "k \<in> set (if f then [0..<n] else [i])" and j': "j' \<in> set (fibre sh fl out')"
    by auto
  have "j' \<in> set (indices sh)"
    using "4.IH" [of out' j'] "4.prems"(1) out' j' by simp
  moreover have "k < n" using k i by (auto split: if_splits)
  ultimately show ?case using j by auto
qed

lemma broadcast_rev_keep:
  "length fl = length sh \<Longrightarrow> broadcast_rev sh (keep_shape sh fl) = Inr sh"
proof (induction sh fl rule: list_induct2')
  case (4 n sh f fl)
  then show ?case by (simp add: keep_shape_Cons)
qed (simp_all add: keep_shape_def)

lemma rev_keep_shape:
  "length fl = length sh \<Longrightarrow> rev (keep_shape sh fl) = keep_shape (rev sh) (rev fl)"
  by (simp add: keep_shape_def rev_map zip_rev)

lemma broadcast_shapes_keep:
  assumes "length fl = length sh"
  shows "broadcast_shapes sh (keep_shape sh fl) = Inr sh"
  using assms broadcast_rev_keep [of "rev fl" "rev sh"]
  by (simp add: broadcast_shapes_def rev_keep_shape)

lemma broadcast_rev_same: "broadcast_rev sh sh = Inr sh"
  by (induction sh) simp_all

lemma broadcast_shapes_same: "broadcast_shapes sh sh = Inr sh"
  by (simp add: broadcast_shapes_def broadcast_rev_same)

text \<open>An index of the input, read in the shape of the kept reduction, names the slice it lies in.\<close>

lemma broadcast_index_keep:
  assumes "length fl = length sh" and "idx \<in> set (indices sh)"
  shows "broadcast_index (keep_shape sh fl) idx \<in> set (indices (keep_shape sh fl))
       \<and> idx \<in> set (fibre sh fl (broadcast_index (keep_shape sh fl) idx))"
  using assms
proof (induction sh fl arbitrary: idx rule: list_induct2')
  case 1
  then show ?case by (simp add: keep_shape_def broadcast_index_def)
next
  case (2 x xs)
  then show ?case by simp
next
  case (3 y ys)
  then show ?case by simp
next
  case (4 n sh f fl)
  from "4.prems"(2) obtain i idx' where idx: "idx = i # idx'" and i: "i < n"
    and idx': "idx' \<in> set (indices sh)"
    by auto
  have len: "length idx' = length sh"
    using idx' by (simp add: in_indices_iff list_all2_lengthD)
  have bi: "broadcast_index (keep_shape (n # sh) (f # fl)) idx
      = (if (if f then 1 else n) = 1 then 0 else i) # broadcast_index (keep_shape sh fl) idx'"
    using len "4.prems"(1) by (simp add: broadcast_index_def keep_shape_Cons keep_shape_def idx)
  have IH: "broadcast_index (keep_shape sh fl) idx' \<in> set (indices (keep_shape sh fl))
       \<and> idx' \<in> set (fibre sh fl (broadcast_index (keep_shape sh fl) idx'))"
    using "4.IH" [of idx'] "4.prems"(1) idx' by simp
  show ?case
    unfolding bi using IH i idx by (auto simp: keep_shape_Cons)
qed

subsection \<open>Axis arguments\<close>

lemma length_axis_flags: "axis_flags as fl = Inr fl' \<Longrightarrow> length fl' = length fl"
  by (induction as arbitrary: fl) (auto split: if_splits)

lemma length_reduction_axes:
  assumes "reduction_axes axis ndim = Inr fl"
  shows "length fl = ndim"
proof (cases axis)
  case AxisNone
  with assms show ?thesis by auto
next
  case (AxisInt k)
  with assms show ?thesis
    by (auto split: if_splits sum.splits dest: length_axis_flags)
next
  case (AxisTuple ks)
  with assms show ?thesis
    by (auto split: sum.splits dest: length_axis_flags)
qed

text \<open>
  Where the reduction accepts an axis argument, \<^verbatim>\<open>squeeze\<close> reads the same axes from it.
\<close>

lemma convert_axis_tuple_flags:
  assumes "adjust_axes ks ndim = Inr as" and "axis_flags as fl = Inr fl'"
  shows "convert_axis_tuple ks ndim fl = Inr fl'"
  using assms
proof (induction ks arbitrary: as fl)
  case Nil
  then show ?case by simp
next
  case (Cons k ks)
  from Cons.prems(1) obtain a as' where a: "check_and_adjust_axis k ndim = Inr a"
    and as': "adjust_axes ks ndim = Inr as'" and as: "as = a # as'"
    by (auto split: sum.splits simp: map_sum_def)
  from Cons.prems(2) as have na: "\<not> fl ! a" and rest: "axis_flags as' (fl[a := True]) = Inr fl'"
    by (auto split: if_splits)
  show ?case
    using a na Cons.IH [OF as' rest] by simp
qed

lemma convert_multi_axis_reduction:
  assumes "reduction_axes axis ndim = Inr fl"
  shows "convert_multi_axis axis ndim = Inr fl"
proof (cases axis)
  case AxisNone
  with assms show ?thesis by simp
next
  case (AxisInt k)
  with assms show ?thesis
    by (auto split: if_splits sum.splits)
next
  case (AxisTuple ks)
  with assms show ?thesis
    by (auto split: sum.splits intro: convert_axis_tuple_flags)
qed

subsection \<open>The maximum\<close>

lemma np_max_abs_empty: "data x = [] \<Longrightarrow> np_max (np_abs x) = Inl ValueError"
  by (simp add: np_max_def np_abs_def)

lemma np_max_abs_some: "data x \<noteq> [] \<Longrightarrow> \<exists>m. np_max (np_abs x) = Inr m"
  by (cases "data x") (simp_all add: np_max_def np_abs_def)

lemma finfo_tiny_pos: "0 < finfo_tiny d"
  by (cases d) simp_all

subsection \<open>Elementwise operations and sums of slices\<close>

lemma map_item_indices:
  assumes "length d = prod_list sh"
  shows "map (\<lambda>idx. f (item sh d idx)) (indices sh) = map f d"
proof -
  have "map (\<lambda>idx. f (item sh d idx)) (indices sh)
      = map (\<lambda>idx. f (d ! flat_index sh idx)) (indices sh)"
    by (rule map_cong) (simp_all add: item_valid)
  also have "\<dots> = map f (map (\<lambda>idx. d ! flat_index sh idx) (indices sh))"
    by (simp add: o_def)
  also have "\<dots> = map f d"
    by (simp add: map_nth_flat [OF assms])
  finally show ?thesis .
qed

lemma binary_ufunc_same:
  assumes "well_formed x"
  shows "binary_ufunc f x x = Inr (x\<lparr>data := map (\<lambda>v. f v v) (data x)\<rparr>)"
  using assms map_item_indices [of "data x" "shape x" "\<lambda>v. f v v"]
  by (simp add: binary_ufunc_def broadcast_shapes_same well_formed_def)

lemma item_map:
  assumes "length d = prod_list sh" and "j \<in> set (indices sh)"
  shows "item sh (map f d) j = f (item sh d j)"
  using assms flat_index_less [OF assms(2)] by (simp add: item_valid)

lemma np_sum_value:
  "np_sum x axis keepdims =
     (case reduction_axes axis (length (shape x)) of
        Inl e \<Rightarrow> Inl e
      | Inr fl \<Rightarrow>
          Inr \<lparr>dtype = dtype x,
               shape = (if keepdims then keep_shape (shape x) fl else remove_axes (shape x) fl),
               data = map (\<lambda>out. fsum (map (item (shape x) (data x)) (fibre (shape x) fl out)))
                          (indices (keep_shape (shape x) fl))\<rparr>)"
  by (cases x) (simp add: np_sum_def split: sum.splits)

text \<open>Summing a slice of an array whose elements went through \<open>f\<close>.\<close>

lemma slice_sum_map:
  assumes "length d = prod_list sh" and "length fl = length sh"
    and "out \<in> set (indices (keep_shape sh fl))"
  shows "map (item sh (map f d)) (fibre sh fl out)
       = map (\<lambda>j. f (item sh d j)) (fibre sh fl out)"
  by (rule map_cong) (simp_all add: item_map [OF assms(1)] fibre_subset [OF assms(2,3)])

lemma rescaled_sqrt:
  fixes a s :: real
  assumes "0 < a"
  shows "a * sqrt (s / (a * a)) = sqrt s"
  using assms by (simp add: real_sqrt_divide)

lemma sum_list_rescaled:
  fixes a :: real
  shows "sum_list (map (\<lambda>j. g j / a * (g j / a)) js) = sum_list (map (\<lambda>j. g j * g j) js) / (a * a)"
  by (induction js) (simp_all add: add_divide_distrib)

section \<open>Facts about the operations\<close>

subsection \<open>Results and errors of the three operations\<close>

lemma binary_ufunc_shape:
  "\<exists>d. binary_ufunc f x x = Inr \<lparr>dtype = dtype x, shape = shape x, data = d\<rparr>"
  by (cases x) (simp add: binary_ufunc_def broadcast_shapes_same)

lemma norm_empty: "data x = [] \<Longrightarrow> norm_l2 x axis keepdims = Inl ValueError"
  by (simp add: norm_l2_def np_max_abs_empty)

lemma norm_axis_error:
  assumes "data x \<noteq> []" and "reduction_axes axis (length (shape x)) = Inl e"
  shows "norm_l2 x axis keepdims = Inl e"
proof -
  obtain m where m: "np_max (np_abs x) = Inr m"
    using np_max_abs_some [OF assms(1)] by blast
  define a where "a = fmax m (Fin (finfo_tiny (dtype x)))"
  obtain d where "np_multiply (divide_scalar x a) (divide_scalar x a)
      = Inr \<lparr>dtype = dtype x, shape = shape x, data = d\<rparr>"
    using binary_ufunc_shape [of fmul "divide_scalar x a"]
    by (auto simp: np_multiply_def divide_scalar_def)
  then show ?thesis
    unfolding norm_l2_def m Let_def a_def
    by (simp add: np_sum_value assms(2))
qed

text \<open>Squeezing the kept reduction over the axes it was reduced over drops exactly these axes.\<close>

lemma remove_axes_keep_shape:
  "length fl = length sh \<Longrightarrow> remove_axes (keep_shape sh fl) fl = remove_axes sh fl"
proof (induction sh fl rule: list_induct2')
  case (4 n sh f fl)
  then show ?case by (simp add: keep_shape_Cons remove_axes_def)
qed (simp_all add: keep_shape_def remove_axes_def)

lemma keep_shape_flagged_one:
  "length fl = length sh \<Longrightarrow> \<not> list_ex (\<lambda>(n, f). f \<and> n \<noteq> 1) (zip (keep_shape sh fl) fl)"
proof (induction sh fl rule: list_induct2')
  case (4 n sh f fl)
  then show ?case by (simp add: keep_shape_Cons)
qed (simp_all add: keep_shape_def)

lemma keep_shape_all: "keep_shape sh (replicate (length sh) True) = replicate (length sh) 1"
  by (induction sh) (simp_all add: keep_shape_def)

lemma remove_axes_all: "remove_axes sh (replicate (length sh) True) = []"
  by (induction sh) (simp_all add: remove_axes_def)

lemma np_squeeze_keep:
  assumes "reduction_axes axis (length sh) = Inr fl" and "shape n = keep_shape sh fl"
  shows "np_squeeze n axis = Inr (n\<lparr>shape := remove_axes sh fl\<rparr>)"
proof -
  have len: "length fl = length sh"
    using assms(1) by (rule length_reduction_axes)
  show ?thesis
  proof (cases "axis = AxisNone")
    case True
    with assms(1) have "fl = replicate (length sh) True" by simp
    then show ?thesis
      using True assms(2) by (simp add: np_squeeze_def keep_shape_all remove_axes_all)
  next
    case False
    have "convert_multi_axis axis (length (shape n)) = Inr fl"
      using assms convert_multi_axis_reduction [OF assms(1)] len
      by (simp add: length_keep_shape)
    then show ?thesis
      using False len assms(2)
      by (cases axis)
         (simp_all add: np_squeeze_def keep_shape_flagged_one [simplified] remove_axes_keep_shape)
  qed
qed

lemma norm_keepdims:
  assumes "data x \<noteq> []" and "reduction_axes axis (length (shape x)) = Inr fl"
  shows "\<exists>n. norm_l2 x axis True = Inr n \<and> dtype n = dtype x
           \<and> shape n = keep_shape (shape x) fl
           \<and> length (data n) = prod_list (keep_shape (shape x) fl)
           \<and> norm_l2 x axis False = Inr (n\<lparr>shape := remove_axes (shape x) fl\<rparr>)"
proof -
  obtain m where m: "np_max (np_abs x) = Inr m"
    using np_max_abs_some [OF assms(1)] by blast
  define a where "a = fmax m (Fin (finfo_tiny (dtype x)))"
  obtain d where "np_multiply (divide_scalar x a) (divide_scalar x a)
      = Inr \<lparr>dtype = dtype x, shape = shape x, data = d\<rparr>"
    using binary_ufunc_shape [of fmul "divide_scalar x a"]
    by (auto simp: np_multiply_def divide_scalar_def)
  then have "\<forall>keepdims. norm_l2 x axis keepdims =
      Inr \<lparr>dtype = dtype x,
           shape = (if keepdims then keep_shape (shape x) fl else remove_axes (shape x) fl),
           data = map (fmul a) (map fsqrt
             (map (\<lambda>out. fsum (map (item (shape x) d) (fibre (shape x) fl out)))
                  (indices (keep_shape (shape x) fl))))\<rparr>"
    unfolding norm_l2_def m Let_def a_def
    by (simp add: np_sum_value assms(2) scalar_multiply_def np_sqrt_def)
  then show ?thesis
    by (simp add: length_indices)
qed

lemma item_map_keep:
  assumes "length d = prod_list (keep_shape sh fl)" and "length fl = length sh"
    and "idx \<in> set (indices sh)"
  shows "item (keep_shape sh fl) (map g d) idx = g (item (keep_shape sh fl) d idx)"
proof -
  have "broadcast_index (keep_shape sh fl) idx \<in> set (indices (keep_shape sh fl))"
    using broadcast_index_keep [OF assms(2,3)] by simp
  then have "flat_index (keep_shape sh fl) (broadcast_index (keep_shape sh fl) idx) < length d"
    using assms(1) by (simp add: flat_index_less)
  then show ?thesis by (simp add: item_def)
qed

lemma item_tabulate_keep:
  assumes "length fl = length sh" and "idx \<in> set (indices sh)"
  shows "item (keep_shape sh fl) (map g (indices (keep_shape sh fl))) idx
       = g (broadcast_index (keep_shape sh fl) idx)"
  using broadcast_index_keep [OF assms] by (simp add: item_def nth_tabulate)

lemma np_where_greater:
  assumes "length (data n) = prod_list (shape n)"
  shows "np_where (greater_scalar (n\<lparr>data := map (\<lambda>v. fmul v v) (data n)\<rparr>) t) n (Fin 1)
       = Inr (n\<lparr>data := map (safe_divisor t) (data n)\<rparr>)"
proof -
  have "map (\<lambda>idx. if item (shape n) (map (\<lambda>v. fgreater v t) (map (\<lambda>v. fmul v v) (data n))) idx
                    then item (shape n) (data n) idx else Fin 1) (indices (shape n))
      = map (\<lambda>idx. safe_divisor t (item (shape n) (data n) idx)) (indices (shape n))"
    by (rule map_cong) (simp_all add: item_map assms safe_divisor_def)
  also have "\<dots> = map (safe_divisor t) (data n)"
    by (rule map_item_indices [OF assms])
  finally show ?thesis
    by (simp add: np_where_def greater_scalar_def broadcast_shapes_same)
qed

lemma normalize_and_return_norm_value:
  assumes "norm_l2 x axis True = Inr n" and "reduction_axes axis (length (shape x)) = Inr fl"
    and "shape n = keep_shape (shape x) fl" and "length (data n) = prod_list (shape n)"
  shows "normalize_and_return_norm x axis keepdims =
     Inr (x\<lparr>data := map (\<lambda>idx. fdiv (item (shape x) (data x) idx)
                                (safe_divisor (Fin (finfo_tiny (dtype x))) (item (shape n) (data n) idx)))
                       (indices (shape x))\<rparr>,
          if keepdims then n else n\<lparr>shape := remove_axes (shape x) fl\<rparr>)"
proof -
  have len: "length fl = length (shape x)"
    using assms(2) by (rule length_reduction_axes)
  have mul: "np_multiply n n = Inr (n\<lparr>data := map (\<lambda>v. fmul v v) (data n)\<rparr>)"
    using assms(4) by (simp add: np_multiply_def binary_ufunc_same well_formed_def)
  have wh: "np_where (greater_scalar (n\<lparr>data := map (\<lambda>v. fmul v v) (data n)\<rparr>)
                (Fin (finfo_tiny (dtype x)))) n (Fin 1)
      = Inr (n\<lparr>data := map (safe_divisor (Fin (finfo_tiny (dtype x)))) (data n)\<rparr>)"
    by (rule np_where_greater [OF assms(4)])
  have "map (\<lambda>idx. fdiv (item (shape x) (data x) idx)
                     (item (shape n) (map (safe_divisor (Fin (finfo_tiny (dtype x)))) (data n)) idx))
            (indices (shape x))
      = map (\<lambda>idx. fdiv (item (shape x) (data x) idx)
                     (safe_divisor (Fin (finfo_tiny (dtype x))) (item (shape n) (data n) idx)))
            (indices (shape x))"
    using assms(3,4) len by (intro map_cong refl) (simp add: item_map_keep)
  then have dv: "np_divide x (n\<lparr>data := map (safe_divisor (Fin (finfo_tiny (dtype x)))) (data n)\<rparr>)
      = Inr (x\<lparr>data := map (\<lambda>idx. fdiv (item (shape x) (data x) idx)
                                (safe_divisor (Fin (finfo_tiny (dtype x))) (item (shape n) (data n) idx)))
                       (indices (shape x))\<rparr>)"
    using len by (simp add: np_divide_def binary_ufunc_def assms(3) broadcast_shapes_keep)
  have sq: "np_squeeze n axis = Inr (n\<lparr>shape := remove_axes (shape x) fl\<rparr>)"
    by (rule np_squeeze_keep [OF assms(2,3)])
  show ?thesis
    by (simp add: normalize_and_return_norm_def assms(1) mul wh dv sq)
qed

lemma normalize_and_return_norm_empty:
  "data x = [] \<Longrightarrow> normalize_and_return_norm x axis keepdims = Inl ValueError"
  by (simp add: normalize_and_return_norm_def norm_empty)

lemma normalize_and_return_norm_axis_error:
  assumes "data x \<noteq> []" and "reduction_axes axis (length (shape x)) = Inl e"
  shows "normalize_and_return_norm x axis keepdims = Inl e"
  by (simp add: normalize_and_return_norm_def norm_axis_error [OF assms])

text \<open>The three ways a call can go: no element, a rejected axis argument, or a result.\<close>

lemma normalize_and_return_norm_cases:
  obtains (empty) "data x = []"
      "\<And>keepdims. norm_l2 x axis keepdims = Inl ValueError"
      "\<And>keepdims. normalize_and_return_norm x axis keepdims = Inl ValueError"
    | (rejected) e where "data x \<noteq> []" "reduction_axes axis (length (shape x)) = Inl e"
      "\<And>keepdims. norm_l2 x axis keepdims = Inl e"
      "\<And>keepdims. normalize_and_return_norm x axis keepdims = Inl e"
    | (result) fl n where "data x \<noteq> []" "reduction_axes axis (length (shape x)) = Inr fl"
      "norm_l2 x axis True = Inr n" "dtype n = dtype x" "shape n = keep_shape (shape x) fl"
      "length (data n) = prod_list (shape n)"
      "norm_l2 x axis False = Inr (n\<lparr>shape := remove_axes (shape x) fl\<rparr>)"
      "\<And>keepdims. normalize_and_return_norm x axis keepdims =
         Inr (x\<lparr>data := map (\<lambda>idx. fdiv (item (shape x) (data x) idx)
                                (safe_divisor (Fin (finfo_tiny (dtype x))) (item (shape n) (data n) idx)))
                       (indices (shape x))\<rparr>,
              if keepdims then n else n\<lparr>shape := remove_axes (shape x) fl\<rparr>)"
proof (cases "data x = []")
  case True
  then show ?thesis
    using empty norm_empty normalize_and_return_norm_empty by blast
next
  case ne: False
  show ?thesis
  proof (cases "reduction_axes axis (length (shape x))")
    case (Inl e)
    then show ?thesis
      using rejected [OF ne Inl] norm_axis_error [OF ne Inl]
        normalize_and_return_norm_axis_error [OF ne Inl] by blast
  next
    case (Inr fl)
    from norm_keepdims [OF ne Inr] obtain n where n: "norm_l2 x axis True = Inr n"
      "dtype n = dtype x" "shape n = keep_shape (shape x) fl"
      "length (data n) = prod_list (keep_shape (shape x) fl)"
      "norm_l2 x axis False = Inr (n\<lparr>shape := remove_axes (shape x) fl\<rparr>)"
      by blast
    have len: "length (data n) = prod_list (shape n)"
      using n(3,4) by simp
    show ?thesis
      using result [OF ne Inr n(1,2,3) len n(5)]
        normalize_and_return_norm_value [OF n(1) Inr n(3) len] by blast
  qed
qed

subsection \<open>Finite arrays\<close>

lemma is_finite_iff: "is_finite v \<longleftrightarrow> v = Fin (real_of v)"
  by (cases v) simp_all

lemma finite_array_elem:
  assumes "finite_array x" and "v \<in> set (data x)"
  shows "v = Fin (real_of v)"
  using assms by (simp add: finite_array_def list_all_iff is_finite_iff [symmetric])

lemma finite_array_map:
  assumes "finite_array x"
  shows "map (\<lambda>v. f v) (data x) = map (\<lambda>v. f (Fin (real_of v))) (data x)"
  by (rule map_cong [OF refl]) (use finite_array_elem [OF assms] in simp)

lemma fold_fmax_Fin: "fold fmax (map Fin rs) (Fin r) = Fin (fold max rs r)"
  by (induction rs arbitrary: r) simp_all

lemma fsum_Fin: "fsum (map Fin rs) = Fin (sum_list rs)"
  by (induction rs) (simp_all add: fsum_def)

lemma np_max_abs_finite:
  assumes "finite_array x" and "data x \<noteq> []"
  shows "np_max (np_abs x) = Inr (Fin (Max (abs ` real_of ` set (data x))))"
proof -
  from assms(2) obtain v vs where d: "data x = v # vs" by (cases "data x") auto
  have e: "map fabs (data x) = map Fin (map (\<lambda>v. \<bar>real_of v\<bar>) (data x))"
    using finite_array_map [OF assms(1), of fabs] by (simp add: o_def)
  have "np_max (np_abs x)
      = (case map fabs (data x) of [] \<Rightarrow> Inl ValueError | v # vs \<Rightarrow> Inr (fold fmax vs v))"
    by (simp add: np_max_def np_abs_def)
  also have "\<dots> = (case map Fin (map (\<lambda>v. \<bar>real_of v\<bar>) (data x)) of
                     [] \<Rightarrow> Inl ValueError | v # vs \<Rightarrow> Inr (fold fmax vs v))"
    by (simp only: e)
  also have "\<dots> = Inr (fold fmax (map Fin (map (\<lambda>v. \<bar>real_of v\<bar>) vs)) (Fin \<bar>real_of v\<bar>))"
    by (simp add: d)
  also have "\<dots> = Inr (Fin (fold max (map (\<lambda>v. \<bar>real_of v\<bar>) vs) \<bar>real_of v\<bar>))"
    by (simp only: fold_fmax_Fin)
  also have "fold max (map (\<lambda>v. \<bar>real_of v\<bar>) vs) \<bar>real_of v\<bar>
      = Max (set (\<bar>real_of v\<bar> # map (\<lambda>v. \<bar>real_of v\<bar>) vs))"
    by (rule Max.set_eq_fold [symmetric])
  also have "set (\<bar>real_of v\<bar> # map (\<lambda>v. \<bar>real_of v\<bar>) vs) = abs ` real_of ` set (data x)"
    by (auto simp: d)
  finally show ?thesis .
qed

lemma scale_of_pos: "0 < scale_of x"
  unfolding scale_of_def using finfo_tiny_pos [of "dtype x"] by (simp add: less_max_iff_disj)


lemma slice_sumsq_nonneg: "0 \<le> slice_sumsq x fl out"
  unfolding slice_sumsq_def by (rule sum_list_nonneg) auto

subsection \<open>What \<open>norm_l2\<close> computes on a finite array\<close>

lemma slice_stage:
  assumes "well_formed x" and "length fl = length (shape x)"
    and "out \<in> set (indices (keep_shape (shape x) fl))" and "0 < a"
  shows "fsum (map (item (shape x) (map (\<lambda>v. Fin (real_of v / a * (real_of v / a))) (data x)))
                   (fibre (shape x) fl out))
         = Fin (slice_sumsq x fl out / (a * a))"
    and "fsqrt (Fin (slice_sumsq x fl out / (a * a))) = Fin (sqrt (slice_sumsq x fl out) / a)"
    and "fmul (Fin a) (Fin (sqrt (slice_sumsq x fl out) / a)) = Fin (sqrt (slice_sumsq x fl out))"
proof -
  have len: "length (data x) = prod_list (shape x)"
    using assms(1) by (simp add: well_formed_def)
  have "map (item (shape x) (map (\<lambda>v. Fin (real_of v / a * (real_of v / a))) (data x)))
            (fibre (shape x) fl out)
      = map (\<lambda>j. Fin (real_of (item (shape x) (data x) j) / a
                        * (real_of (item (shape x) (data x) j) / a)))
            (fibre (shape x) fl out)"
    by (rule slice_sum_map [OF len assms(2,3)])
  also have "\<dots> = map Fin (map (\<lambda>j. real_of (item (shape x) (data x) j) / a
                                      * (real_of (item (shape x) (data x) j) / a))
                              (fibre (shape x) fl out))"
    by (simp add: o_def)
  finally have "fsum (map (item (shape x) (map (\<lambda>v. Fin (real_of v / a * (real_of v / a))) (data x)))
                          (fibre (shape x) fl out))
      = Fin (sum_list (map (\<lambda>j. real_of (item (shape x) (data x) j) / a
                                   * (real_of (item (shape x) (data x) j) / a))
                           (fibre (shape x) fl out)))"
    by (simp only: fsum_Fin)
  also have "sum_list (map (\<lambda>j. real_of (item (shape x) (data x) j) / a
                                   * (real_of (item (shape x) (data x) j) / a))
                           (fibre (shape x) fl out))
      = slice_sumsq x fl out / (a * a)"
    unfolding slice_sumsq_def by (rule sum_list_rescaled)
  finally show "fsum (map (item (shape x) (map (\<lambda>v. Fin (real_of v / a * (real_of v / a))) (data x)))
                   (fibre (shape x) fl out))
         = Fin (slice_sumsq x fl out / (a * a))" .
  have "0 \<le> slice_sumsq x fl out / (a * a)"
    using slice_sumsq_nonneg [of x fl out] assms(4) by simp
  then show "fsqrt (Fin (slice_sumsq x fl out / (a * a))) = Fin (sqrt (slice_sumsq x fl out) / a)"
    using assms(4) by (simp add: real_sqrt_divide)
  show "fmul (Fin a) (Fin (sqrt (slice_sumsq x fl out) / a)) = Fin (sqrt (slice_sumsq x fl out))"
    using assms(4) by simp
qed

lemma np_sum_data:
  "np_sum (x\<lparr>data := d\<rparr>) axis keepdims =
     (case reduction_axes axis (length (shape x)) of
        Inl e \<Rightarrow> Inl e
      | Inr fl \<Rightarrow>
          Inr \<lparr>dtype = dtype x,
               shape = (if keepdims then keep_shape (shape x) fl else remove_axes (shape x) fl),
               data = map (\<lambda>out. fsum (map (item (shape x) d) (fibre (shape x) fl out)))
                          (indices (keep_shape (shape x) fl))\<rparr>)"
  by (simp add: np_sum_value split: sum.splits)

lemma data_update_data: "data (x\<lparr>data := d\<rparr>) = d"
  by simp

lemma data_np_sqrt: "data (np_sqrt s) = map fsqrt (data s)"
  by (simp add: np_sqrt_def)

lemma data_scalar_multiply: "data (scalar_multiply a s) = map (fmul a) (data s)"
  by (simp add: scalar_multiply_def)

lemma norm_stages_finite:
  assumes "well_formed x" and "finite_array x" and "data x \<noteq> []"
    and "reduction_axes axis (length (shape x)) = Inr fl"
  shows "norm_stages_of x axis keepdims =
     Inr \<lparr>st_abs = map (\<lambda>v. Fin \<bar>real_of v\<bar>) (data x),
          st_max = Fin (Max (abs ` real_of ` set (data x))),
          st_a = Fin (scale_of x),
          st_b = map (\<lambda>v. Fin (real_of v / scale_of x)) (data x),
          st_bb = map (\<lambda>v. Fin (real_of v / scale_of x * (real_of v / scale_of x))) (data x),
          st_sum = map (\<lambda>out. Fin (slice_sumsq x fl out / (scale_of x * scale_of x)))
                       (indices (keep_shape (shape x) fl)),
          st_sqrt = map (\<lambda>out. Fin (sqrt (slice_sumsq x fl out) / scale_of x))
                        (indices (keep_shape (shape x) fl)),
          st_result = map (\<lambda>out. Fin (sqrt (slice_sumsq x fl out)))
                          (indices (keep_shape (shape x) fl))\<rparr>"
proof -
  let ?a = "scale_of x"
  let ?b = "x\<lparr>data := map (\<lambda>v. Fin (real_of v / ?a)) (data x)\<rparr>"
  let ?bb = "x\<lparr>data := map (\<lambda>v. Fin (real_of v / ?a * (real_of v / ?a))) (data x)\<rparr>"
  have a: "0 < ?a" by (rule scale_of_pos)
  have len: "length fl = length (shape x)"
    using assms(4) by (rule length_reduction_axes)
  have mx: "np_max (np_abs x) = Inr (Fin (Max (abs ` real_of ` set (data x))))"
    by (rule np_max_abs_finite [OF assms(2,3)])
  have sc: "fmax (Fin (Max (abs ` real_of ` set (data x)))) (Fin (finfo_tiny (dtype x))) = Fin ?a"
    by (simp add: scale_of_def)
  have ab: "data (np_abs x) = map (\<lambda>v. Fin \<bar>real_of v\<bar>) (data x)"
    using finite_array_map [OF assms(2), of fabs] by (simp add: np_abs_def)
  have "map (\<lambda>v. fdiv v (Fin ?a)) (data x) = map (\<lambda>v. Fin (real_of v / ?a)) (data x)"
    using finite_array_map [OF assms(2), of "\<lambda>v. fdiv v (Fin ?a)"] a by simp
  then have dv: "divide_scalar x (Fin ?a) = ?b"
    by (simp only: divide_scalar_def)
  have "well_formed ?b"
    using assms(1) by (simp add: well_formed_def)
  then have mul: "np_multiply ?b ?b = Inr ?bb"
    by (simp add: np_multiply_def binary_ufunc_same o_def)
  have "map (\<lambda>out. fsum (map (item (shape x)
                (map (\<lambda>v. Fin (real_of v / ?a * (real_of v / ?a))) (data x)))
                (fibre (shape x) fl out)))
            (indices (keep_shape (shape x) fl))
      = map (\<lambda>out. Fin (slice_sumsq x fl out / (?a * ?a))) (indices (keep_shape (shape x) fl))"
    by (rule map_cong [OF refl]) (rule slice_stage(1) [OF assms(1) len _ a])
  then have sm: "np_sum ?bb axis keepdims =
      Inr \<lparr>dtype = dtype x,
           shape = (if keepdims then keep_shape (shape x) fl else remove_axes (shape x) fl),
           data = map (\<lambda>out. Fin (slice_sumsq x fl out / (?a * ?a)))
                      (indices (keep_shape (shape x) fl))\<rparr>"
    by (simp only: np_sum_data assms(4) sum.case)
  have rt: "map fsqrt (map (\<lambda>out. Fin (slice_sumsq x fl out / (?a * ?a)))
                           (indices (keep_shape (shape x) fl)))
      = map (\<lambda>out. Fin (sqrt (slice_sumsq x fl out) / ?a)) (indices (keep_shape (shape x) fl))"
    unfolding map_map o_def
    by (rule map_cong [OF refl]) (rule slice_stage(2) [OF assms(1) len _ a])
  have rs: "map (fmul (Fin ?a)) (map (\<lambda>out. Fin (sqrt (slice_sumsq x fl out) / ?a))
                                    (indices (keep_shape (shape x) fl)))
      = map (\<lambda>out. Fin (sqrt (slice_sumsq x fl out))) (indices (keep_shape (shape x) fl))"
    unfolding map_map o_def
    by (rule map_cong [OF refl]) (rule slice_stage(3) [OF assms(1) len _ a])
  show ?thesis
    by (simp only: norm_stages_of_def mx Let_def sum.case sc dv mul sm ab data_update_data
        data_np_sqrt data_scalar_multiply ndarray.select_convs rt rs)
qed

lemma norm_l2_stages:
  "map_sum id data (norm_l2 x axis keepdims)
     = map_sum id st_result (norm_stages_of x axis keepdims)"
  by (simp add: norm_l2_def norm_stages_of_def Let_def split: sum.splits)

lemma norm_value:
  assumes "well_formed x" and "finite_array x" and "data x \<noteq> []"
    and "reduction_axes axis (length (shape x)) = Inr fl"
  shows "norm_l2 x axis keepdims =
     Inr \<lparr>dtype = dtype x,
          shape = (if keepdims then keep_shape (shape x) fl else remove_axes (shape x) fl),
          data = map (\<lambda>out. Fin (sqrt (slice_sumsq x fl out)))
                     (indices (keep_shape (shape x) fl))\<rparr>"
proof -
  from norm_keepdims [OF assms(3,4)] obtain n where n: "norm_l2 x axis True = Inr n"
    "dtype n = dtype x" "shape n = keep_shape (shape x) fl"
    "norm_l2 x axis False = Inr (n\<lparr>shape := remove_axes (shape x) fl\<rparr>)"
    by blast
  have "map_sum id data (norm_l2 x axis True)
      = Inr (map (\<lambda>out. Fin (sqrt (slice_sumsq x fl out))) (indices (keep_shape (shape x) fl)))"
    unfolding norm_l2_stages norm_stages_finite [OF assms] by simp
  then have d: "data n = map (\<lambda>out. Fin (sqrt (slice_sumsq x fl out)))
                             (indices (keep_shape (shape x) fl))"
    by (simp add: n(1))
  have "n = \<lparr>dtype = dtype x, shape = keep_shape (shape x) fl,
             data = map (\<lambda>out. Fin (sqrt (slice_sumsq x fl out)))
                        (indices (keep_shape (shape x) fl))\<rparr>"
    using n(2,3) d by (cases n) simp
  then show ?thesis
    using n(1,4) by (cases keepdims) simp_all
qed

lemma returned_norm:
  assumes "normalize_and_return_norm x axis keepdims = Inr (y, n)"
  shows "norm_l2 x axis keepdims = Inr n"
proof (cases x axis rule: normalize_and_return_norm_cases)
  case empty
  with assms show ?thesis by simp
next
  case (rejected e)
  with assms show ?thesis by simp
next
  case (result fl n')
  with assms show ?thesis by (cases keepdims) auto
qed

lemma norm_data_nonnegative:
  assumes "well_formed x" and "finite_array x" and "norm_l2 x axis keepdims = Inr n"
  shows "\<forall>v\<in>set (data n). nonnegative v"
proof -
  have ne: "data x \<noteq> []"
    using assms(3) norm_empty [of x axis keepdims] by auto
  obtain fl where fl: "reduction_axes axis (length (shape x)) = Inr fl"
    using assms(3) norm_axis_error [OF ne, of axis _ keepdims]
    by (cases "reduction_axes axis (length (shape x))") auto
  show ?thesis
    using assms(3) unfolding norm_value [OF assms(1,2) ne fl]
    by (auto simp: slice_sumsq_nonneg)
qed

subsection \<open>Magnitudes of the stages\<close>











subsection \<open>Shapes of the results\<close>

lemma keep_shape_none: "keep_shape sh (replicate (length sh) False) = sh"
  by (induction sh) (simp_all add: keep_shape_def)

lemma remove_axes_none: "remove_axes sh (replicate (length sh) False) = sh"
  by (induction sh) (simp_all add: remove_axes_def)

lemma keep_shape_single:
  "j < length sh \<Longrightarrow> keep_shape sh ((replicate (length sh) False)[j := True]) = sh[j := 1]"
proof (induction sh arbitrary: j)
  case Nil
  then show ?case by simp
next
  case (Cons n sh)
  show ?case
  proof (cases j)
    case 0
    then show ?thesis
      using keep_shape_none [of sh] by (simp add: keep_shape_Cons)
  next
    case (Suc j')
    then show ?thesis
      using Cons by (simp add: keep_shape_Cons)
  qed
qed

lemma remove_axes_single:
  "j < length sh \<Longrightarrow>
     remove_axes sh ((replicate (length sh) False)[j := True]) = take j sh @ drop (Suc j) sh"
proof (induction sh arbitrary: j)
  case Nil
  then show ?case by simp
next
  case (Cons n sh)
  show ?case
  proof (cases j)
    case 0
    then show ?thesis
      using remove_axes_none [of sh] by (simp add: remove_axes_def)
  next
    case (Suc j')
    then show ?thesis
      using Cons.IH [of j'] Cons.prems by (simp add: remove_axes_def)
  qed
qed

lemma reduction_axes_int:
  assumes "- int r \<le> k" and "k < int r"
  shows "reduction_axes (AxisInt k) r =
           Inr ((replicate r False)[nat (if k < 0 then k + int r else k) := True])"
    and "nat (if k < 0 then k + int r else k) < r"
  using assms by (auto simp: check_and_adjust_axis_def)

lemma normalize_value:
  assumes "data x \<noteq> []" and "reduction_axes axis (length (shape x)) = Inr fl"
  shows "\<exists>n. norm_l2 x axis True = Inr n \<and> shape n = keep_shape (shape x) fl
           \<and> length (data n) = prod_list (shape n)
           \<and> normalize x axis =
               Inr (x\<lparr>data := map (\<lambda>idx. fdiv (item (shape x) (data x) idx)
                                (safe_divisor (Fin (finfo_tiny (dtype x))) (item (shape n) (data n) idx)))
                       (indices (shape x))\<rparr>)"
proof (cases x axis rule: normalize_and_return_norm_cases)
  case empty
  with assms show ?thesis by simp
next
  case (rejected e)
  with assms show ?thesis by simp
next
  case (result fl' n)
  with assms show ?thesis by (simp add: normalize_def)
qed

lemma normalize_shape: "normalize x axis = Inr y \<Longrightarrow> shape y = shape x"
proof (cases x axis rule: normalize_and_return_norm_cases)
  case empty
  moreover assume "normalize x axis = Inr y"
  ultimately show ?thesis by (simp add: normalize_def)
next
  case (rejected e)
  moreover assume "normalize x axis = Inr y"
  ultimately show ?thesis by (simp add: normalize_def)
next
  case (result fl n)
  moreover assume "normalize x axis = Inr y"
  ultimately show ?thesis by (auto simp: normalize_def)
qed

subsection \<open>Rank 0\<close>

lemma reduction_axes_rank0:
  assumes "axis \<in> {AxisNone, AxisInt 0, AxisInt (- 1), AxisTuple []}"
  shows "reduction_axes axis 0 = Inr []"
  using assms by auto

subsection \<open>Rejected axis arguments\<close>

lemma adjust_axes_out_of_range:
  "list_ex (\<lambda>k. k < - int r \<or> int r \<le> k) ks \<Longrightarrow> adjust_axes ks r = Inl AxisError"
  by (induction ks) (auto simp: check_and_adjust_axis_def split: sum.splits)

lemma reduction_axes_out_of_range:
  assumes "axis_out_of_range axis r"
  shows "reduction_axes axis r = Inl AxisError"
proof (cases axis)
  case AxisNone
  with assms show ?thesis by simp
next
  case (AxisInt k)
  with assms show ?thesis by (auto simp: check_and_adjust_axis_def)
next
  case (AxisTuple ks)
  with assms show ?thesis by (simp add: adjust_axes_out_of_range)
qed

subsection \<open>The operations on concrete inputs\<close>

text \<open>The unfolding that evaluates the engine on a concrete array.\<close>

lemmas engine_eval =
  np_max_def np_abs_def np_sqrt_def divide_scalar_def scalar_multiply_def greater_scalar_def
  np_multiply_def np_divide_def binary_ufunc_def np_where_def np_sum_def np_squeeze_def
  broadcast_shapes_def broadcast_index_def item_def keep_shape_def remove_axes_def
  check_and_adjust_axis_def fsum_def safe_divisor_def upt_rec real_sqrt_divide

lemma norm_rows34:
  "norm_l2 rows34 (AxisInt 1) False =
     Inr \<lparr>dtype = Float32, shape = [2], data = [Fin 5, Fin 0]\<rparr>"
  by (simp add: rows34_def norm_l2_def engine_eval)

lemma norm_rows34_keep:
  "norm_l2 rows34 (AxisInt 1) True =
     Inr \<lparr>dtype = Float32, shape = [2, 1], data = [Fin 5, Fin 0]\<rparr>"
  by (simp add: rows34_def norm_l2_def engine_eval)

lemma normalize_and_return_norm_rows34:
  "normalize_and_return_norm rows34 (AxisInt 1) False =
     Inr (\<lparr>dtype = Float32, shape = [2, 2], data = [Fin (3 / 5), Fin (4 / 5), Fin 0, Fin 0]\<rparr>,
          \<lparr>dtype = Float32, shape = [2], data = [Fin 5, Fin 0]\<rparr>)"
  by (simp add: normalize_and_return_norm_def rows34_def norm_rows34_keep [unfolded rows34_def]
      engine_eval)

lemma norm_vec34_keep:
  "norm_l2 vec34 AxisNone True = Inr \<lparr>dtype = Float64, shape = [1], data = [Fin 5]\<rparr>"
  by (simp add: vec34_def norm_l2_def engine_eval)

lemma norm_nan_vec:
  "norm_l2 nan_vec AxisNone False = Inr \<lparr>dtype = Float64, shape = [], data = [NaN]\<rparr>"
  by (simp add: nan_vec_def norm_l2_def engine_eval)

lemma norm_inf_vec:
  "norm_l2 inf_vec AxisNone False = Inr \<lparr>dtype = Float64, shape = [], data = [NaN]\<rparr>"
  by (simp add: inf_vec_def norm_l2_def engine_eval)



lemma norm_stages_steep_rows:
  "norm_stages_of steep_rows (AxisInt 1) False =
     Inr \<lparr>st_abs = [Fin 128, Fin 0, Fin (1 / 64), Fin 0], st_max = Fin 128, st_a = Fin 128,
          st_b = [Fin 1, Fin 0, Fin (1 / 2 ^ 13), Fin 0],
          st_bb = [Fin 1, Fin 0, Fin (1 / 2 ^ 26), Fin 0],
          st_sum = [Fin 1, Fin (1 / 2 ^ 26)], st_sqrt = [Fin 1, Fin (1 / 2 ^ 13)],
          st_result = [Fin 128, Fin (1 / 64)]\<rparr>"
proof -
  have "sqrt (1 / 67108864) = 1 / 8192"
    by (rule real_sqrt_unique) (simp_all add: power2_eq_square)
  then show ?thesis
    by (simp add: steep_rows_def norm_stages_of_def engine_eval Let_def)
qed

lemma naive_norm_steep_rows:
  "naive_norm steep_rows (AxisInt 1) False =
     Inr \<lparr>dtype = Float16, shape = [2], data = [Fin 128, Fin (1 / 64)]\<rparr>"
proof -
  have "sqrt 16384 = 128"
    by (rule real_sqrt_unique) (simp_all add: power2_eq_square)
  moreover have "sqrt (1 / 4096) = 1 / 64"
    by (rule real_sqrt_unique) (simp_all add: power2_eq_square)
  ultimately
  show ?thesis
    by (simp add: steep_rows_def naive_norm_def engine_eval)
qed


section \<open>The claims\<close>

subsection \<open>Equivalence with the naive norm\<close>

text \<open>
  C1 does not hold of the code.  On a zero-size array the naive norm is 0, which is also what
  \<^verbatim>\<open>jax.numpy.linalg.norm\<close> returns, and \<open>norm_l2\<close> raises, since \<^verbatim>\<open>np.max\<close> has no
  maximum of no elements to return.  In floating point the two also differ on the
  \<^verbatim>\<open>float16\<close> matrix \<^verbatim>\<open>[[128.0, 0.0], [0.015625, 0.0]]\<close> reduced along axis 1, whose elements and
  naive squares are all normal numbers: the square of the second row's rescaled element is
  \<open>1 / 2 ^ 26\<close>, below half the smallest subnormal number, so that it is rounded to 0 and the
  second norm, which is \<open>1 / 64\<close>, is returned as 0.
\<close>

theorem norm_naive_divergence:
  "well_formed empty_vec
   \<and> naive_norm empty_vec AxisNone False = Inr \<lparr>dtype = Float64, shape = [], data = [Fin 0]\<rparr>
   \<and> norm_l2 empty_vec AxisNone False = Inl ValueError
   \<and> well_formed steep_rows
   \<and> naive_norm steep_rows (AxisInt 1) False =
       Inr \<lparr>dtype = Float16, shape = [2], data = [Fin 128, Fin (1 / 64)]\<rparr>
   \<and> norm_stages_of steep_rows (AxisInt 1) False =
       Inr \<lparr>st_abs = [Fin 128, Fin 0, Fin (1 / 64), Fin 0], st_max = Fin 128, st_a = Fin 128,
            st_b = [Fin 1, Fin 0, Fin (1 / 2 ^ 13), Fin 0],
            st_bb = [Fin 1, Fin 0, Fin (1 / 2 ^ 26), Fin 0],
            st_sum = [Fin 1, Fin (1 / 2 ^ 26)], st_sqrt = [Fin 1, Fin (1 / 2 ^ 13)],
            st_result = [Fin 128, Fin (1 / 64)]\<rparr>
   \<and> 2 * (1 / 2 ^ 26) < finfo_smallest_subnormal Float16
   \<and> finfo_tiny Float16 \<le> 1 / 64 * (1 / 64)
   \<and> 128 * 128 \<le> finfo_max Float16"
  using norm_stages_steep_rows naive_norm_steep_rows
  by (simp add: well_formed_def empty_vec_def steep_rows_def naive_norm_def norm_l2_def engine_eval)

subsection \<open>Overflow\<close>




subsection \<open>Slices of near-zero norm\<close>

text \<open>
  C3 does not hold of the code on a zero-size array: the one slice of the empty vector has the
  L2-norm 0, and \<open>normalize\<close> and \<open>normalize_and_return_norm\<close> raise instead of returning
  the slice.
\<close>

theorem near_zero_zero_size_raises:
  "well_formed empty_vec
   \<and> naive_norm empty_vec (AxisInt 0) True = Inr \<lparr>dtype = Float64, shape = [1], data = [Fin 0]\<rparr>
   \<and> (0 :: real) * 0 \<le> finfo_tiny (dtype empty_vec)
   \<and> normalize empty_vec (AxisInt 0) = Inl ValueError
   \<and> normalize_and_return_norm empty_vec (AxisInt 0) True = Inl ValueError"
  by (simp add: well_formed_def empty_vec_def naive_norm_def normalize_def normalize_and_return_norm_def
      norm_l2_def engine_eval)

subsection \<open>Arrays of zeros\<close>

text \<open>
  C4 does not hold of the code on a zero-size array of zeros: for \<^verbatim>\<open>np.zeros((2, 0))\<close>, whose
  naive norm is 0, both \<open>norm_l2\<close> and \<open>normalize\<close> raise.
\<close>

theorem zero_input_zero_size_raises:
  "well_formed empty_rows \<and> list_all (\<lambda>v. v = Fin 0) (data empty_rows)
   \<and> reduction_axes AxisNone (length (shape empty_rows)) = Inr [True, True]
   \<and> naive_norm empty_rows AxisNone False = Inr \<lparr>dtype = Float64, shape = [], data = [Fin 0]\<rparr>
   \<and> norm_l2 empty_rows AxisNone False = Inl ValueError
   \<and> normalize empty_rows AxisNone = Inl ValueError"
  by (simp add: well_formed_def empty_rows_def naive_norm_def normalize_def
      normalize_and_return_norm_def norm_l2_def engine_eval)

subsection \<open>The shape contract\<close>

text \<open>
  C5 does not hold of the code on a zero-size array: the empty vector has rank 1 and the valid
  axis 0, and all three calls raise, where the naive norm has the shapes of the contract.
\<close>

theorem shape_contract_zero_size_raises:
  "length (shape empty_vec) = 1
   \<and> map_sum id shape (naive_norm empty_vec (AxisInt 0) False) = Inr []
   \<and> map_sum id shape (naive_norm empty_vec (AxisInt 0) True) = Inr [1]
   \<and> norm_l2 empty_vec (AxisInt 0) False = Inl ValueError
   \<and> norm_l2 empty_vec (AxisInt 0) True = Inl ValueError
   \<and> normalize empty_vec (AxisInt 0) = Inl ValueError"
  by (simp add: empty_vec_def naive_norm_def normalize_def normalize_and_return_norm_def norm_l2_def
      engine_eval)

subsection \<open>Scalar results\<close>

text \<open>
  C6 (as amended).  For every \<open>x\<close> with at least one element: with the axis absent and
  \<^verbatim>\<open>keepdims\<close> false the result of \<open>norm_l2\<close> is a rank-0 array; with the axis absent and
  \<^verbatim>\<open>keepdims\<close> true it has the rank of \<open>x\<close> and extent 1 along every axis; and if \<open>x\<close> is
  rank-0 the result is a rank-0 array for either \<^verbatim>\<open>keepdims\<close> and each axis argument that
  the engine accepts for rank 0 (\<^verbatim>\<open>None\<close>, \<^verbatim>\<open>0\<close>, \<^verbatim>\<open>-1\<close>, \<^verbatim>\<open>()\<close>).
\<close>

theorem norm_scalar_result:
  assumes "data x \<noteq> []"
  shows "(\<exists>n. norm_l2 x AxisNone False = Inr n \<and> shape n = [])
       \<and> (\<exists>n. norm_l2 x AxisNone True = Inr n \<and> shape n = replicate (length (shape x)) 1)
       \<and> (shape x = [] \<longrightarrow>
            (\<forall>axis\<in>{AxisNone, AxisInt 0, AxisInt (- 1), AxisTuple []}.
               \<forall>keepdims. \<exists>n. norm_l2 x axis keepdims = Inr n \<and> shape n = []))"
proof (intro conjI impI ballI allI)
  have fl: "reduction_axes AxisNone (length (shape x)) = Inr (replicate (length (shape x)) True)"
    by simp
  from norm_keepdims [OF assms fl]
  show "\<exists>n. norm_l2 x AxisNone False = Inr n \<and> shape n = []"
    by (auto simp: remove_axes_all)
  from norm_keepdims [OF assms fl]
  show "\<exists>n. norm_l2 x AxisNone True = Inr n \<and> shape n = replicate (length (shape x)) 1"
    by (auto simp: keep_shape_all)
next
  fix axis keepdims
  assume r0: "shape x = []"
    and ax: "axis \<in> {AxisNone, AxisInt 0, AxisInt (- 1), AxisTuple []}"
  have fl: "reduction_axes axis (length (shape x)) = Inr []"
    using reduction_axes_rank0 [OF ax] r0 by simp
  from norm_keepdims [OF assms fl]
  show "\<exists>n. norm_l2 x axis keepdims = Inr n \<and> shape n = []"
    using r0 by (cases keepdims) (auto simp: keep_shape_def remove_axes_def)
qed

theorem norm_scalar_result_witness:
  "data vec34 \<noteq> []
   \<and> (\<exists>n. norm_l2 vec34 AxisNone False = Inr n \<and> shape n = [])
   \<and> (\<exists>n. norm_l2 vec34 AxisNone True = Inr n \<and> shape n = [1])
   \<and> data scalar7 \<noteq> [] \<and> shape scalar7 = []
   \<and> (\<exists>n. norm_l2 scalar7 (AxisInt 0) True = Inr n \<and> shape n = [])"
proof -
  have d: "data vec34 \<noteq> []" by (simp add: vec34_def)
  have d7: "data scalar7 \<noteq> []" and s7: "shape scalar7 = []" by (simp_all add: scalar7_def)
  have "\<exists>n. norm_l2 scalar7 (AxisInt 0) True = Inr n \<and> shape n = []"
    using norm_scalar_result [OF d7] s7 by blast
  moreover have "\<exists>n. norm_l2 vec34 AxisNone True = Inr n \<and> shape n = [1]"
    using norm_scalar_result [OF d] by (simp add: vec34_def)
  ultimately show ?thesis
    using d d7 s7 norm_scalar_result [OF d] by blast
qed

text \<open>
  C6 as stated fails with \<^verbatim>\<open>keepdims=True\<close>: for the vector \<^verbatim>\<open>[3.0, 4.0]\<close> and the axis
  absent the result has shape \<^verbatim>\<open>(1,)\<close>, rank 1.
\<close>

theorem norm_scalar_counterexample:
  "norm_l2 vec34 AxisNone True = Inr \<lparr>dtype = Float64, shape = [1], data = [Fin 5]\<rparr>
   \<and> \<not> (\<exists>n. norm_l2 vec34 AxisNone True = Inr n \<and> shape n = [])"
  using norm_vec34_keep by simp

subsection \<open>The wrapper\<close>

text \<open>
  C7.  \<open>normalize x axis\<close> is the first component of
  \<open>normalize_and_return_norm x axis True\<close>, the norm being discarded; and since that
  operation starts from \<open>norm_l2 x axis True\<close>, \<open>normalize\<close> fails exactly when this call of
  \<open>norm_l2\<close> fails, with its error.
\<close>

theorem normalize_is_first_component:
  "normalize x axis = map_sum id fst (normalize_and_return_norm x axis True)
   \<and> (normalize x axis = Inl e \<longleftrightarrow> norm_l2 x axis True = Inl e)"
proof (cases x axis rule: normalize_and_return_norm_cases)
  case empty
  then show ?thesis by (simp add: normalize_def)
next
  case (rejected e')
  then show ?thesis by (simp add: normalize_def)
next
  case (result fl n)
  then show ?thesis by (simp add: normalize_def)
qed

subsection \<open>Axis arguments outside the rank\<close>

text \<open>
  C8 (as amended).  For every \<open>x\<close> with at least one element and every axis argument that
  names a dimension outside the rank of \<open>x\<close> (for a rank-0 \<open>x\<close>: other than the integers 0
  and -1), each of \<open>norm_l2\<close>, \<open>normalize_and_return_norm\<close> and \<open>normalize\<close> fails with the
  engine's \<^verbatim>\<open>AxisError\<close> and returns nothing.
\<close>

theorem invalid_axis_error:
  assumes "data x \<noteq> []" and "axis_out_of_range axis (length (shape x))"
  shows "norm_l2 x axis keepdims = Inl AxisError
       \<and> normalize_and_return_norm x axis keepdims = Inl AxisError
       \<and> normalize x axis = Inl AxisError"
proof -
  have e: "reduction_axes axis (length (shape x)) = Inl AxisError"
    by (rule reduction_axes_out_of_range [OF assms(2)])
  show ?thesis
    by (simp add: norm_axis_error [OF assms(1) e]
        normalize_and_return_norm_axis_error [OF assms(1) e] normalize_def)
qed

theorem invalid_axis_error_witness:
  "data rows34 \<noteq> [] \<and> axis_out_of_range (AxisInt (- 3)) (length (shape rows34))
   \<and> norm_l2 rows34 (AxisInt (- 3)) False = Inl AxisError
   \<and> normalize_and_return_norm rows34 (AxisInt (- 3)) False = Inl AxisError
   \<and> normalize rows34 (AxisInt (- 3)) = Inl AxisError
   \<and> axis_out_of_range (AxisTuple [0, 2]) (length (shape rows34))
   \<and> norm_l2 rows34 (AxisTuple [0, 2]) True = Inl AxisError"
proof -
  have d: "data rows34 \<noteq> []" by (simp add: rows34_def)
  have a: "axis_out_of_range (AxisInt (- 3)) (length (shape rows34))"
    by (simp add: rows34_def)
  have b: "axis_out_of_range (AxisTuple [0, 2]) (length (shape rows34))"
    by (simp add: rows34_def)
  show ?thesis
    using d a b invalid_axis_error [OF d a, of False] invalid_axis_error [OF d b, of True]
    by simp
qed

text \<open>
  C8 as stated fails twice.  A rank-0 array has no axis 0, yet the reduction lets the
  integer axis 0 through and \<open>norm_l2\<close> returns; and on a zero-size array the maximum raises
  \<^verbatim>\<open>ValueError\<close> before the out-of-range axis 5 is looked at.
\<close>

theorem invalid_axis_counterexample:
  "length (shape scalar7) = 0
   \<and> norm_l2 scalar7 (AxisInt 0) False = Inr \<lparr>dtype = Float64, shape = [], data = [Fin 7]\<rparr>
   \<and> length (shape empty_vec) = 1
   \<and> norm_l2 empty_vec (AxisInt 5) False = Inl ValueError"
  by (simp add: scalar7_def empty_vec_def norm_l2_def engine_eval)

subsection \<open>Sign of the norm\<close>

text \<open>
  C9 (as amended).  For every array \<open>x\<close> whose elements are all finite, every element of an
  array returned by \<open>norm_l2\<close> is nonnegative, and so is every element of the norm returned
  by \<open>normalize_and_return_norm\<close>.
\<close>

theorem norm_nonnegative:
  assumes "well_formed x" and "finite_array x"
  shows "(\<forall>n. norm_l2 x axis keepdims = Inr n \<longrightarrow> (\<forall>v\<in>set (data n). nonnegative v))
       \<and> (\<forall>y n. normalize_and_return_norm x axis keepdims = Inr (y, n)
                  \<longrightarrow> (\<forall>v\<in>set (data n). nonnegative v))"
  using norm_data_nonnegative [OF assms] returned_norm by blast

theorem norm_nonnegative_witness:
  "well_formed rows34 \<and> finite_array rows34
   \<and> norm_l2 rows34 (AxisInt 1) False =
       Inr \<lparr>dtype = Float32, shape = [2], data = [Fin 5, Fin 0]\<rparr>
   \<and> list_all nonnegative [Fin 5, Fin 0]
   \<and> normalize_and_return_norm rows34 (AxisInt 1) False =
        Inr (\<lparr>dtype = Float32, shape = [2, 2], data = [Fin (3 / 5), Fin (4 / 5), Fin 0, Fin 0]\<rparr>,
             \<lparr>dtype = Float32, shape = [2], data = [Fin 5, Fin 0]\<rparr>)"
proof -
  have w: "well_formed rows34" by (simp add: well_formed_def rows34_def)
  have f: "finite_array rows34" by (simp add: finite_array_def rows34_def)
  show ?thesis
    using w f norm_nonnegative [OF w f, of "AxisInt 1" False] norm_rows34
      normalize_and_return_norm_rows34 by simp
qed

text \<open>
  C9 as stated fails on an array that holds a NaN or an infinity: the norm of
  \<^verbatim>\<open>[nan, 1.0]\<close> and of \<^verbatim>\<open>[inf, 1.0]\<close> is NaN, which is not nonnegative.  With an infinity
  the scale \<open>a\<close> is infinite, and \<open>\<infinity> / \<infinity>\<close> is NaN.
\<close>

theorem norm_nonnegative_counterexample:
  "well_formed nan_vec
   \<and> norm_l2 nan_vec AxisNone False = Inr \<lparr>dtype = Float64, shape = [], data = [NaN]\<rparr>
   \<and> well_formed inf_vec
   \<and> norm_l2 inf_vec AxisNone False = Inr \<lparr>dtype = Float64, shape = [], data = [NaN]\<rparr>
   \<and> \<not> nonnegative NaN"
  using norm_nan_vec norm_inf_vec by (simp add: well_formed_def nan_vec_def inf_vec_def)

subsection \<open>The returned norm\<close>

text \<open>
  C10.  For every \<open>x\<close>, axis argument and \<^verbatim>\<open>keepdims\<close>, the second component returned by
  \<open>normalize_and_return_norm\<close> is what \<open>norm_l2\<close> returns for the same arguments, and the one
  fails exactly as the other does.  In particular the squeezed \<^verbatim>\<open>keepdims=True\<close> norm is the
  \<^verbatim>\<open>keepdims=False\<close> norm, and the fallback divisor 1 never shows in it.
\<close>

theorem returned_norm_is_norm:
  "map_sum id snd (normalize_and_return_norm x axis keepdims) = norm_l2 x axis keepdims"
proof (cases x axis rule: normalize_and_return_norm_cases)
  case empty
  then show ?thesis by simp
next
  case (rejected e)
  then show ?thesis by simp
next
  case (result fl n)
  then show ?thesis by (cases keepdims) simp_all
qed

theorem returned_norm_is_norm_witness:
  "shape rows34 \<noteq> []
   \<and> map_sum id snd (normalize_and_return_norm rows34 (AxisInt 1) False)
       = norm_l2 rows34 (AxisInt 1) False
   \<and> norm_l2 rows34 (AxisInt 1) False = Inr \<lparr>dtype = Float32, shape = [2], data = [Fin 5, Fin 0]\<rparr>"
proof -
  have s: "shape rows34 \<noteq> []" by (simp add: rows34_def)
  show ?thesis
    using s returned_norm_is_norm [of rows34 "AxisInt 1" False] norm_rows34 by simp
qed

end
